theory Spec2Isabelle
  imports Main
begin

section \<open>JavaScript values and conversions used by \<^verbatim>\<open>server.js\<close>\<close>

text \<open>
  The fields of a JSON request body, a route parameter and a query parameter are
  JavaScript values. A Number is given by its decimal form, which is what the handlers
  see of it (they test it for truth and pass it to \<^verbatim>\<open>parseInt\<close>, which converts it
  to a string first): \<open>Fin m e\<close> is \<open>m \<times> 10^e\<close> and \<open>Inf neg\<close> is an infinity
  (\<^verbatim>\<open>JSON.parse\<close> gives one for a literal such as \<^verbatim>\<open>1e400\<close>). So 8080 is
  \<open>Fin 8080 0\<close>, 65535.9 is \<open>Fin 655359 (-1)\<close> and \<open>10^21\<close> is \<open>Fin 1 21\<close>. In the
  shortest decimal form of a Number, the one it prints with, \<open>m\<close> is not a multiple of
  10; an integer below \<open>10^21\<close> prints the same when it is written with \<open>e = 0\<close>.
  Both zeros are \<open>Fin 0 e\<close>: they print alike and are both falsy. NaN cannot come
  from JSON.

  \<open>JObject s\<close> is an array or an object, given with its conversion to a string (the
  handlers use only that it is truthy, that it is not a string, and that conversion).
  A \<open>char\<close> of a \<open>string\<close> stands for the UTF-16 code unit of the same code, so the
  strings of the model are those over U+0000 .. U+00FF.
\<close>

datatype jsnum = Fin int int | Inf bool

datatype jsval = JUndefined | JNull | JBool bool | JNum jsnum | JStr string | JObject string

text \<open>ToBoolean, as applied by \<^verbatim>\<open>!x\<close>, \<^verbatim>\<open>x && y\<close>, \<^verbatim>\<open>x ? a : b\<close>.\<close>

fun truthy :: "jsval \<Rightarrow> bool" where
  "truthy JUndefined = False"
| "truthy JNull = False"
| "truthy (JBool b) = b"
| "truthy (JNum (Fin m e)) = (m \<noteq> 0)"
| "truthy (JNum (Inf neg)) = True"
| "truthy (JStr s) = (s \<noteq> [])"
| "truthy (JObject s) = True"

text \<open>The decimal digits of a number that is not negative.\<close>

definition digit_char :: "int \<Rightarrow> char" where
  "digit_char d = char_of (48 + d)"

function show_digits :: "int \<Rightarrow> string" where
  "show_digits n =
     (if n < 10 then [digit_char n] else show_digits (n div 10) @ [digit_char (n mod 10)])"
  by pat_completeness auto
termination
  by (relation "measure nat") auto

declare show_digits.simps [simp del]

text \<open>
  \<^verbatim>\<open>Number::toString\<close> of ECMAScript for a positive finite value with the digits \<open>s\<close>
  (\<open>k\<close> of them) and the value \<open>0.s \<times> 10^n\<close>: the digits with zeros appended for an
  integer below \<open>10^21\<close>, a decimal point inside the digits, \<^verbatim>\<open>0.\<close> and zeros before
  the digits down to \<open>10^-6\<close>, and the exponent form otherwise.
\<close>

definition dec_to_string :: "string \<Rightarrow> int \<Rightarrow> string" where
  "dec_to_string s n =
     (let k = int (length s) in
      if k \<le> n \<and> n \<le> 21 then s @ replicate (nat (n - k)) (CHR ''0'')
      else if 0 < n \<and> n \<le> 21 then take (nat n) s @ ''.'' @ drop (nat n) s
      else if - 6 < n \<and> n \<le> 0 then ''0.'' @ replicate (nat (- n)) (CHR ''0'') @ s
      else (if k = 1 then s else take 1 s @ ''.'' @ drop 1 s)
           @ ''e'' @ (if n - 1 < 0 then ''-'' else ''+'') @ show_digits \<bar>n - 1\<bar>)"

definition num_to_string :: "jsnum \<Rightarrow> string" where
  "num_to_string x =
     (case x of
        Inf neg \<Rightarrow> (if neg then ''-'' else []) @ ''Infinity''
      | Fin m e \<Rightarrow>
          if m = 0 then ''0''
          else (if m < 0 then ''-'' else [])
               @ dec_to_string (show_digits \<bar>m\<bar>) (e + int (length (show_digits \<bar>m\<bar>))))"

text \<open>ToString, as \<^verbatim>\<open>parseInt\<close> applies it to its argument.\<close>

fun to_string :: "jsval \<Rightarrow> string" where
  "to_string JUndefined = ''undefined''"
| "to_string JNull = ''null''"
| "to_string (JBool b) = (if b then ''true'' else ''false'')"
| "to_string (JNum x) = num_to_string x"
| "to_string (JStr s) = s"
| "to_string (JObject s) = s"

text \<open>
  White space of \<^verbatim>\<open>String.prototype.trim\<close>, of \<^verbatim>\<open>parseInt\<close> and of the
  regular-expression class \<^verbatim>\<open>\s\<close> (white space and line terminators), below U+0100:
  TAB, LF, VT, FF, CR, SPACE and NO-BREAK SPACE.
\<close>

definition is_ws :: "char \<Rightarrow> bool" where
  "is_ws c = (of_char c \<in> {9::int, 10, 11, 12, 13, 32, 160})"

definition is_digit :: "char \<Rightarrow> bool" where
  "is_digit c = (48 \<le> (of_char c :: int) \<and> (of_char c :: int) \<le> 57)"

definition is_hex_digit :: "char \<Rightarrow> bool" where
  "is_hex_digit c =
     (is_digit c \<or> (65 \<le> (of_char c :: int) \<and> (of_char c :: int) \<le> 70)
                \<or> (97 \<le> (of_char c :: int) \<and> (of_char c :: int) \<le> 102))"

definition digit_value :: "char \<Rightarrow> int" where
  "digit_value c =
     (if is_digit c then of_char c - 48
      else if 97 \<le> (of_char c :: int) then of_char c - 87
      else of_char c - 55)"

definition digits_value :: "int \<Rightarrow> string \<Rightarrow> int" where
  "digits_value radix ds = foldl (\<lambda>a c. radix * a + digit_value c) 0 ds"

definition trim :: "string \<Rightarrow> string" where
  "trim s = rev (dropWhile is_ws (rev (dropWhile is_ws s)))"

text \<open>
  \<^verbatim>\<open>parseInt(s)\<close> with no radix: skip leading white space, read a sign, read the
  prefix \<^verbatim>\<open>0x\<close>/\<^verbatim>\<open>0X\<close> (then the radix is 16), take the longest run of digits of the
  radix; \<open>None\<close> is NaN. The value is the exact integer (JavaScript rounds an
  integer beyond \<open>2^53\<close> to the nearest Number; a port, a pid, a bound or a ttl of
  that size is outside the model).
\<close>

definition parseInt_str :: "string \<Rightarrow> int option" where
  "parseInt_str s =
     (let s1 = dropWhile is_ws s;
          sgn = (if take 1 s1 = ''-'' then - 1 else 1);
          s2 = (if take 1 s1 = ''-'' \<or> take 1 s1 = ''+'' then drop 1 s1 else s1);
          hex = (take 2 s2 = ''0x'' \<or> take 2 s2 = ''0X'');
          s3 = (if hex then drop 2 s2 else s2);
          z = takeWhile (if hex then is_hex_digit else is_digit) s3
      in if z = [] then None
         else Some (sgn * digits_value (if hex then 16 else 10) z))"

text \<open>\<^verbatim>\<open>parseInt(v)\<close> converts \<open>v\<close> to a string first.\<close>

definition parseInt :: "jsval \<Rightarrow> int option" where
  "parseInt v = parseInt_str (to_string v)"

section \<open>The registry\<close>

text \<open>
  A registration as \<^verbatim>\<open>POST /api/ports/register\<close> builds it and as \<^verbatim>\<open>ports.json\<close>
  holds it. \<open>registeredAt\<close> and \<open>lastHeartbeat\<close> are the instants (milliseconds) whose
  ISO rendering the source stores; \<open>rid\<close> is the source's \<^verbatim>\<open>id\<close>, the pair that the
  template \<^verbatim>\<open>`${portNum}-${now}`\<close> joins. \<open>expiresAt = None\<close> is the \<^verbatim>\<open>null\<close> that
  \<^verbatim>\<open>JSON.stringify\<close> writes for NaN.
\<close>

record registration =
  port :: int
  agent :: string
  reason :: string
  registeredAt :: int
  expiresAt :: "int option"
  rid :: "int \<times> int"
  lastHeartbeat :: "int option"

type_synonym store = "registration list"

definition TTL_MS :: int where
  "TTL_MS = 30 * 60 * 1000"

text \<open>The callback of \<^verbatim>\<open>pruneExpired\<close>: a falsy \<^verbatim>\<open>expiresAt\<close> (null, 0) is kept.\<close>

definition unexpired :: "int \<Rightarrow> registration \<Rightarrow> bool" where
  "unexpired now r =
     (case expiresAt r of None \<Rightarrow> True | Some e \<Rightarrow> if e = 0 then True else e > now)"

definition pruneExpired :: "int \<Rightarrow> registration list \<Rightarrow> registration list" where
  "pruneExpired now registrations = filter (unexpired now) registrations"

text \<open>\<^verbatim>\<open>Array.prototype.findIndex\<close>; \<open>None\<close> is the source's \<open>-1\<close>.\<close>

fun findIndex :: "('a \<Rightarrow> bool) \<Rightarrow> 'a list \<Rightarrow> nat option" where
  "findIndex P [] = None"
| "findIndex P (x # xs) =
     (if P x then Some 0 else map_option Suc (findIndex P xs))"

text \<open>\<^verbatim>\<open>xs.splice(i, 1)\<close> for an index inside the array.\<close>

definition splice1 :: "nat \<Rightarrow> 'a list \<Rightarrow> 'a list" where
  "splice1 i xs = take i xs @ drop (Suc i) xs"

datatype error =
    Validation
  | Conflict registration
  | NotFound
  | Forbidden
  | ScanUnavailable

fun status_of :: "error \<Rightarrow> nat" where
  "status_of Validation = 400"
| "status_of (Conflict r) = 409"
| "status_of NotFound = 404"
| "status_of Forbidden = 403"
| "status_of ScanUnavailable = 500"

subsection \<open>\<^verbatim>\<open>POST /api/ports/register\<close>\<close>

record register_body =
  b_port :: jsval
  b_agent :: jsval
  b_reason :: jsval
  b_ttlMinutes :: jsval

definition port_invalid :: "jsval \<Rightarrow> bool" where
  "port_invalid v =
     (\<not> truthy v \<or>
      (case parseInt v of None \<Rightarrow> True | Some n \<Rightarrow> n < 1 \<or> n > 65535))"

text \<open>\<^verbatim>\<open>!x || typeof x !== 'string' || !x.trim()\<close>\<close>

definition text_missing :: "jsval \<Rightarrow> bool" where
  "text_missing v =
     (\<not> truthy v \<or> (case v of JStr s \<Rightarrow> trim s = [] | _ \<Rightarrow> True))"

definition trimmed :: "jsval \<Rightarrow> string" where
  "trimmed v = (case v of JStr s \<Rightarrow> trim s | _ \<Rightarrow> [])"

text \<open>
  \<^verbatim>\<open>ttlMinutes ? parseInt(ttlMinutes) * 60 * 1000 : TTL_MS\<close>, added to \<^verbatim>\<open>now\<close>;
  \<open>None\<close> is NaN.
\<close>

definition ttl_of :: "jsval \<Rightarrow> int option" where
  "ttl_of v =
     (if truthy v then map_option (\<lambda>m. m * 60 * 1000) (parseInt v) else Some TTL_MS)"

text \<open>
  The handler reads the clock three times: \<open>tp\<close> inside \<^verbatim>\<open>pruneExpired\<close>, \<open>tn\<close> for
  \<^verbatim>\<open>const now\<close>, \<open>tr\<close> for \<^verbatim>\<open>registeredAt\<close>. It returns the persisted store and the
  response; a response sent before \<^verbatim>\<open>saveData\<close> leaves the store as it was.
\<close>

definition register_handler ::
  "store \<Rightarrow> register_body \<Rightarrow> int \<Rightarrow> int \<Rightarrow> int \<Rightarrow> store \<times> (error + registration)" where
  "register_handler st body tp tn tr =
     (if port_invalid (b_port body) then (st, Inl Validation)
      else if text_missing (b_agent body) then (st, Inl Validation)
      else if text_missing (b_reason body) then (st, Inl Validation)
      else
        (case parseInt (b_port body) of
           None \<Rightarrow> (st, Inl Validation)
         | Some portNum \<Rightarrow>
             let regs = pruneExpired tp st in
             (case find (\<lambda>r. port r = portNum) regs of
                Some existing \<Rightarrow> (st, Inl (Conflict existing))
              | None \<Rightarrow>
                  let r = \<lparr> port = portNum,
                            agent = trimmed (b_agent body),
                            reason = trimmed (b_reason body),
                            registeredAt = tr,
                            expiresAt = map_option (\<lambda>ttl. tn + ttl) (ttl_of (b_ttlMinutes body)),
                            rid = (portNum, tn),
                            lastHeartbeat = None \<rparr>
                  in (regs @ [r], Inr r))))"

subsection \<open>\<^verbatim>\<open>POST /api/ports/:port/heartbeat\<close>\<close>

text \<open>
  The route parameter is a string; \<^verbatim>\<open>r.port === NaN\<close> is false for every \<open>r\<close>.
  The clock is read for \<^verbatim>\<open>expiresAt\<close> (\<open>tn\<close>) and for \<^verbatim>\<open>lastHeartbeat\<close> (\<open>th\<close>).
  The response carries the new expiry.
\<close>

definition port_is :: "int option \<Rightarrow> registration \<Rightarrow> bool" where
  "port_is p r = (case p of None \<Rightarrow> False | Some n \<Rightarrow> port r = n)"

definition heartbeat_handler ::
  "store \<Rightarrow> string \<Rightarrow> jsval \<Rightarrow> int \<Rightarrow> int \<Rightarrow> store \<times> (error + int)" where
  "heartbeat_handler st param agentv tn th =
     (case findIndex (port_is (parseInt_str param)) st of
        None \<Rightarrow> (st, Inl NotFound)
      | Some i \<Rightarrow>
          if truthy agentv \<and> JStr (agent (st ! i)) \<noteq> agentv then (st, Inl Forbidden)
          else (st[i := (st ! i)\<lparr> expiresAt := Some (tn + TTL_MS),
                                  lastHeartbeat := Some th \<rparr>],
                Inr (tn + TTL_MS)))"

subsection \<open>\<^verbatim>\<open>DELETE /api/ports/:port\<close> and \<^verbatim>\<open>DELETE /api/ports\<close>\<close>

definition release_handler ::
  "store \<Rightarrow> string \<Rightarrow> jsval \<Rightarrow> store \<times> (error + registration)" where
  "release_handler st param agentv =
     (case findIndex (port_is (parseInt_str param)) st of
        None \<Rightarrow> (st, Inl NotFound)
      | Some i \<Rightarrow>
          if truthy agentv \<and> JStr (agent (st ! i)) \<noteq> agentv then (st, Inl Forbidden)
          else (splice1 i st, Inr (st ! i)))"

definition clear_handler :: "store \<Rightarrow> store \<times> unit" where
  "clear_handler st = ([], ())"

section \<open>OS port detection\<close>

text \<open>
  \<^verbatim>\<open>execSync\<close> either returns the text that the utility printed or throws (the
  utility failed or ran past its timeout). The environment of a request holds both
  outcomes: \<open>None\<close> is the throw.
\<close>

record env =
  netstat :: "string option"
  tasklist :: "string option"

text \<open>\<^verbatim>\<open>output.split(/\r?\n/)\<close>: every LF separates, and takes a CR just before it along.\<close>

definition cons_first :: "char \<Rightarrow> string list \<Rightarrow> string list" where
  "cons_first c ls = (case ls of [] \<Rightarrow> [[c]] | l # rest \<Rightarrow> (c # l) # rest)"

fun split_lines :: "string \<Rightarrow> string list" where
  "split_lines [] = [[]]"
| "split_lines [c] = (if c = CHR 0x0A then [[], []] else [[c]])"
| "split_lines (c # d # cs) =
     (if c = CHR 0x0D \<and> d = CHR 0x0A then [] # split_lines cs
      else if c = CHR 0x0A then [] # split_lines (d # cs)
      else cons_first c (split_lines (d # cs)))"

text \<open>
  The part \<^verbatim>\<open>^\s+(TCP|UDP)\s+\<close> that both patterns of \<^verbatim>\<open>getSystemPorts\<close> start
  with: the protocol and what follows the white space after it. A greedy run followed
  by a token of another character class has one way to match, the longest.
\<close>

definition match_head :: "string \<Rightarrow> (string \<times> string) option" where
  "match_head line =
     (let ws0 = takeWhile is_ws line;
          s0 = dropWhile is_ws line;
          pr = take 3 s0;
          s1 = drop 3 s0;
          ws1 = takeWhile is_ws s1;
          s2 = dropWhile is_ws s1
      in if ws0 = [] \<or> (pr \<noteq> ''TCP'' \<and> pr \<noteq> ''UDP'') \<or> ws1 = [] then None
         else Some (pr, s2))"

text \<open>
  The common end \<^verbatim>\<open>(\d+)\s+\S+\s+(\S+)\s+(\d+)\<close>, matched where the port starts:
  the port digits, the state and the pid digits.
\<close>

definition match_tail :: "string \<Rightarrow> (string \<times> string \<times> string) option" where
  "match_tail s =
     (let portStr = takeWhile is_digit s;
          s1 = dropWhile is_digit s;
          ws1 = takeWhile is_ws s1;
          s2 = dropWhile is_ws s1;
          foreign = takeWhile (\<lambda>c. \<not> is_ws c) s2;
          s3 = dropWhile (\<lambda>c. \<not> is_ws c) s2;
          ws2 = takeWhile is_ws s3;
          s4 = dropWhile is_ws s3;
          st = takeWhile (\<lambda>c. \<not> is_ws c) s4;
          s5 = dropWhile (\<lambda>c. \<not> is_ws c) s4;
          ws3 = takeWhile is_ws s5;
          s6 = dropWhile is_ws s5;
          pidStr = takeWhile is_digit s6
      in if portStr = [] \<or> ws1 = [] \<or> foreign = [] \<or> ws2 = [] \<or> st = [] \<or> ws3 = []
            \<or> pidStr = []
         then None
         else Some (portStr, st, pidStr))"

text \<open>First pattern: the address \<^verbatim>\<open>[\d.]*\<close>, a colon, the common end.\<close>

definition match_v4 :: "string \<Rightarrow> (string \<times> string \<times> string \<times> string) option" where
  "match_v4 line =
     (case match_head line of
        None \<Rightarrow> None
      | Some (pr, s2) \<Rightarrow>
          (case dropWhile (\<lambda>c. is_digit c \<or> c = CHR ''.'') s2 of
             [] \<Rightarrow> None
           | c # s3 \<Rightarrow>
               if c = CHR '':'' then
                 (case match_tail s3 of
                    None \<Rightarrow> None
                  | Some (portStr, st, pidStr) \<Rightarrow> Some (pr, portStr, st, pidStr))
               else None))"

text \<open>
  Second pattern: \<^verbatim>\<open>\[.*?\]:\<close> and the common end. The lazy \<^verbatim>\<open>.*?\<close> first tries to
  go on with \<^verbatim>\<open>]:\<close> where it stands, and takes one more character (any but a line
  terminator, here CR and LF) when the rest of the pattern does not match from there.
\<close>

fun lazy_bracket :: "string \<Rightarrow> (string \<times> string \<times> string) option" where
  "lazy_bracket [] = None"
| "lazy_bracket (c # cs) =
     (case (if c = CHR '']'' \<and> take 1 cs = '':'' then match_tail (drop 1 cs) else None) of
        Some m \<Rightarrow> Some m
      | None \<Rightarrow>
          if c = CHR 0x0A \<or> c = CHR 0x0D then None else lazy_bracket cs)"

definition match_v6 :: "string \<Rightarrow> (string \<times> string \<times> string \<times> string) option" where
  "match_v6 line =
     (case match_head line of
        None \<Rightarrow> None
      | Some (pr, s2) \<Rightarrow>
          (case s2 of
             [] \<Rightarrow> None
           | c # s3 \<Rightarrow>
               if c = CHR ''['' then
                 (case lazy_bracket s3 of
                    None \<Rightarrow> None
                  | Some (portStr, st, pidStr) \<Rightarrow> Some (pr, portStr, st, pidStr))
               else None))"

text \<open>\<^verbatim>\<open>line.match(first) || line.match(second)\<close>: protocol, port, state, pid.\<close>

definition match_line :: "string \<Rightarrow> (string \<times> string \<times> string \<times> string) option" where
  "match_line line = (case match_v4 line of Some m \<Rightarrow> Some m | None \<Rightarrow> match_v6 line)"

record binding =
  pid :: int
  proto :: string
  state :: string

text \<open>The \<^verbatim>\<open>Map\<close> of \<^verbatim>\<open>getSystemPorts\<close>, in insertion order; its keys stay distinct.\<close>

type_synonym portMap = "(int \<times> binding) list"

text \<open>One turn of the loop over the lines.\<close>

definition scan_row :: "portMap \<Rightarrow> string \<Rightarrow> portMap" where
  "scan_row portMap line =
     (case match_line line of
        None \<Rightarrow> portMap
      | Some (pr, portStr, st, pidStr) \<Rightarrow>
          if pr = ''TCP'' \<and> st \<noteq> ''LISTENING'' then portMap
          else
            (case (parseInt_str portStr, parseInt_str pidStr) of
               (Some pn, Some pd) \<Rightarrow>
                 if pn > 0 \<and> pn \<le> 65535 \<and> map_of portMap pn = None
                 then portMap @ [(pn, \<lparr> pid = pd, proto = pr,
                                         state = (if pr = ''UDP'' then ''UDP'' else st) \<rparr>)]
                 else portMap
             | _ \<Rightarrow> portMap))"

definition parse_netstat :: "string \<Rightarrow> portMap" where
  "parse_netstat output = foldl scan_row [] (split_lines output)"

text \<open>\<open>None\<close> is the \<^verbatim>\<open>null\<close> of the \<^verbatim>\<open>catch\<close> branch.\<close>

definition getSystemPorts :: "string option \<Rightarrow> portMap option" where
  "getSystemPorts out = map_option parse_netstat out"

text \<open>
  \<^verbatim>\<open>isPortInUseByOS(port, portMap)\<close>: the outer \<open>None\<close> is the argument left out
  (\<^verbatim>\<open>undefined\<close>), for which the function scans by itself; the result \<open>None\<close> is
  \<^verbatim>\<open>null\<close>.
\<close>

definition isPortInUseByOS :: "string option \<Rightarrow> int \<Rightarrow> portMap option option \<Rightarrow> bool option" where
  "isPortInUseByOS out p arg =
     (let m = (case arg of Some pm \<Rightarrow> pm | None \<Rightarrow> getSystemPorts out)
      in case m of None \<Rightarrow> None | Some pm \<Rightarrow> Some (map_of pm p \<noteq> None))"

text \<open>\<^verbatim>\<open>getPidMap\<close>: rows \<^verbatim>\<open>^"([^"]+)","(\d+)"\<close>; a later row of a pid replaces an earlier.\<close>

definition match_task :: "string \<Rightarrow> (string \<times> string) option" where
  "match_task line =
     (case line of
        [] \<Rightarrow> None
      | q # s \<Rightarrow>
          if q \<noteq> CHR 0x22 then None
          else
            (let name = takeWhile (\<lambda>c. c \<noteq> CHR 0x22) s;
                 s1 = dropWhile (\<lambda>c. c \<noteq> CHR 0x22) s;
                 ds = takeWhile is_digit (drop 3 s1);
                 s2 = dropWhile is_digit (drop 3 s1)
             in if name = [] \<or> take 3 s1 \<noteq> [CHR 0x22, CHR '','', CHR 0x22] \<or> ds = []
                   \<or> take 1 s2 \<noteq> [CHR 0x22]
                then None
                else Some (name, ds)))"

definition task_row :: "(int \<rightharpoonup> string) \<Rightarrow> string \<Rightarrow> (int \<rightharpoonup> string)" where
  "task_row m line =
     (case match_task line of
        None \<Rightarrow> m
      | Some (name, ds) \<Rightarrow>
          (case parseInt_str ds of None \<Rightarrow> m | Some pd \<Rightarrow> m(pd \<mapsto> name)))"

definition getPidMap :: "string option \<Rightarrow> (int \<rightharpoonup> string)" where
  "getPidMap out =
     (case out of None \<Rightarrow> Map.empty | Some t \<Rightarrow> foldl task_row Map.empty (split_lines t))"

section \<open>Read routes\<close>

subsection \<open>\<^verbatim>\<open>GET /api/ports\<close>\<close>

text \<open>A registration with its OS annotation; \<open>None\<close> is \<^verbatim>\<open>null\<close>.\<close>

record enriched =
  reg :: registration
  osInUse :: "bool option"
  osPid :: "int option"
  osProto :: "string option"
  osState :: "string option"
  osProcess :: "string option"

text \<open>\<^verbatim>\<open>pidMap.get(pid) || null\<close>\<close>

definition process_name :: "(int \<rightharpoonup> string) \<Rightarrow> int \<Rightarrow> string option" where
  "process_name pidMap pd =
     (case pidMap pd of None \<Rightarrow> None | Some n \<Rightarrow> if n = [] then None else Some n)"

definition enrich :: "portMap option \<Rightarrow> (int \<rightharpoonup> string) \<Rightarrow> registration \<Rightarrow> enriched" where
  "enrich portMap pidMap r =
     (let info = (case portMap of None \<Rightarrow> None | Some pm \<Rightarrow> map_of pm (port r))
      in \<lparr> reg = r,
           osInUse = (case portMap of None \<Rightarrow> None | Some pm \<Rightarrow> Some (map_of pm (port r) \<noteq> None)),
           osPid = map_option pid info,
           osProto = map_option proto info,
           osState = map_option state info,
           osProcess = (case info of None \<Rightarrow> None | Some b \<Rightarrow> process_name pidMap (pid b)) \<rparr>)"

text \<open>The listing never fails: it answers 200 with the annotated list and its length.\<close>

definition list_handler :: "store \<Rightarrow> env \<Rightarrow> int \<Rightarrow> store \<times> (error + enriched list \<times> nat)" where
  "list_handler st e tp =
     (let regs = pruneExpired tp st;
          portMap = getSystemPorts (netstat e);
          pidMap = (case portMap of None \<Rightarrow> Map.empty | Some pm \<Rightarrow> getPidMap (tasklist e));
          out = map (enrich portMap pidMap) regs
      in (regs, Inr (out, length out)))"

subsection \<open>\<^verbatim>\<open>GET /api/ports/system\<close>\<close>

record annotated =
  a_port :: int
  a_pid :: int
  a_proto :: string
  a_state :: string
  a_process :: "string option"
  a_registered :: bool
  a_registration :: "registration option"

text \<open>
  \<^verbatim>\<open>new Map(registrations.map(r => [r.port, r]))\<close> keeps the last registration of a
  port. The pruned list is used for the answer and not saved.
\<close>

definition annotate :: "portMap \<Rightarrow> (int \<rightharpoonup> string) \<Rightarrow> registration list \<Rightarrow> int \<Rightarrow> annotated option" where
  "annotate pm pidMap regs p =
     (case map_of pm p of
        None \<Rightarrow> None
      | Some b \<Rightarrow>
          Some \<lparr> a_port = p, a_pid = pid b, a_proto = proto b, a_state = state b,
                 a_process = process_name pidMap (pid b),
                 a_registered = (find (\<lambda>r. port r = p) (rev regs) \<noteq> None),
                 a_registration = find (\<lambda>r. port r = p) (rev regs) \<rparr>)"

definition system_handler :: "store \<Rightarrow> env \<Rightarrow> int \<Rightarrow> store \<times> (error + annotated list \<times> nat)" where
  "system_handler st e tp =
     (case getSystemPorts (netstat e) of
        None \<Rightarrow> (st, Inl ScanUnavailable)
      | Some pm \<Rightarrow>
          let pidMap = getPidMap (tasklist e);
              regs = pruneExpired tp st;
              allPorts = sort (map fst pm);
              out = List.map_filter (annotate pm pidMap regs) allPorts
          in (st, Inr (out, length out)))"

subsection \<open>\<^verbatim>\<open>GET /api/ports/check/:port\<close>\<close>

datatype recommendation =
    RegisteredBy string string
  | InUseByOS
  | AppearsFree

record check_response =
  c_port :: int
  available :: bool
  registeredBy :: "registration option"
  c_osInUse :: "bool option"
  c_recommendation :: recommendation

text \<open>\<^verbatim>\<open>!osInUse\<close> is true for \<^verbatim>\<open>false\<close> and for \<^verbatim>\<open>null\<close>.\<close>

definition check_handler :: "store \<Rightarrow> string \<Rightarrow> env \<Rightarrow> int \<Rightarrow> store \<times> (error + check_response)" where
  "check_handler st param e tp =
     (case parseInt_str param of
        None \<Rightarrow> (st, Inl Validation)
      | Some pn \<Rightarrow>
          if pn < 1 \<or> pn > 65535 then (st, Inl Validation)
          else
            let regs = pruneExpired tp st;
                registered = find (\<lambda>r. port r = pn) regs;
                inUse = isPortInUseByOS (netstat e) pn None
            in (regs,
                Inr \<lparr> c_port = pn,
                      available = (registered = None \<and> inUse \<noteq> Some True),
                      registeredBy = registered,
                      c_osInUse = inUse,
                      c_recommendation =
                        (case registered of
                           Some r \<Rightarrow> RegisteredBy (agent r) (reason r)
                         | None \<Rightarrow> if inUse = Some True then InUseByOS else AppearsFree) \<rparr>))"

subsection \<open>\<^verbatim>\<open>GET /api/suggest\<close>\<close>

text \<open>\<^verbatim>\<open>parseInt(q) || d\<close>: NaN and 0 give the default.\<close>

definition or_default :: "int option \<Rightarrow> int \<Rightarrow> int" where
  "or_default v d = (case v of None \<Rightarrow> d | Some n \<Rightarrow> if n = 0 then d else n)"

text \<open>\<^verbatim>\<open>for (let p = min; p <= max; p++)\<close> with the \<^verbatim>\<open>return\<close> in its body.\<close>

function scan_range :: "(int \<Rightarrow> bool) \<Rightarrow> int \<Rightarrow> int \<Rightarrow> int option" where
  "scan_range free p mx =
     (if p \<le> mx then (if free p then Some p else scan_range free (p + 1) mx) else None)"
  by pat_completeness auto
termination
  by (relation "measure (\<lambda>(free, p, mx). nat (mx + 1 - p))") auto

declare scan_range.simps [simp del]

definition suggest_handler :: "store \<Rightarrow> jsval \<Rightarrow> jsval \<Rightarrow> env \<Rightarrow> int \<Rightarrow> store \<times> (error + int)" where
  "suggest_handler st qmin qmax e tp =
     (let mn = or_default (parseInt qmin) 3000;
          mx = or_default (parseInt qmax) 9999;
          regs = pruneExpired tp st;
          registeredPorts = set (map port regs);
          portMap = getSystemPorts (netstat e)
      in (st,
          case scan_range
                 (\<lambda>p. p \<notin> registeredPorts
                       \<and> isPortInUseByOS (netstat e) p (Some portMap) \<noteq> Some True)
                 mn mx of
            Some p \<Rightarrow> Inr p
          | None \<Rightarrow> Inl NotFound))"

section \<open>Request sequences\<close>

text \<open>A request with what it reads from the clock and from the operating system.\<close>

datatype request =
    ListPorts env int
  | SystemPorts env int
  | CheckPort string env int
  | Register register_body int int int
  | Heartbeat string jsval int int
  | Release string jsval
  | ClearAll
  | Suggest jsval jsval env int

fun step :: "store \<Rightarrow> request \<Rightarrow> store" where
  "step st (ListPorts e tp) = fst (list_handler st e tp)"
| "step st (SystemPorts e tp) = fst (system_handler st e tp)"
| "step st (CheckPort param e tp) = fst (check_handler st param e tp)"
| "step st (Register body tp tn tr) = fst (register_handler st body tp tn tr)"
| "step st (Heartbeat param agentv tn th) = fst (heartbeat_handler st param agentv tn th)"
| "step st (Release param agentv) = fst (release_handler st param agentv)"
| "step st ClearAll = fst (clear_handler st)"
| "step st (Suggest qmin qmax e tp) = fst (suggest_handler st qmin qmax e tp)"

text \<open>The store after a sequence of requests, from the empty registry of a first run.\<close>

definition run :: "request list \<Rightarrow> store" where
  "run reqs = foldl step [] reqs"

section \<open>Properties\<close>

subsection \<open>Array and parsing helpers\<close>

lemma findIndex_SomeD:
  "findIndex P xs = Some i \<Longrightarrow> i < length xs \<and> P (xs ! i) \<and> (\<forall>j<i. \<not> P (xs ! j))"
proof (induction xs arbitrary: i)
  case Nil
  then show ?case by simp
next
  case (Cons x xs)
  show ?case
  proof (cases "P x")
    case True
    with Cons.prems show ?thesis by simp
  next
    case False
    with Cons.prems obtain k where k: "findIndex P xs = Some k" "i = Suc k"
      by auto
    from Cons.IH [OF k(1)] False k(2) show ?thesis
      by (auto simp: less_Suc_eq_0_disj)
  qed
qed

lemma findIndex_None_iff: "findIndex P xs = None \<longleftrightarrow> (\<forall>x\<in>set xs. \<not> P x)"
  by (induction xs) auto

lemma find_findIndex:
  "find P xs = (case findIndex P xs of None \<Rightarrow> None | Some i \<Rightarrow> Some (xs ! i))"
  by (induction xs) (auto split: option.splits)

lemma port_is_Some: "port_is (Some n) = (\<lambda>r. port r = n)"
  by (rule ext) (simp add: port_is_def)

lemma parseInt_str_Nil: "parseInt_str [] = None"
  by (simp add: parseInt_str_def)

lemma parseInt_JStr [simp]: "parseInt (JStr s) = parseInt_str s"
  by (simp add: parseInt_def)

lemma parseInt_str_words:
  "parseInt_str ''undefined'' = None" "parseInt_str ''null'' = None"
  "parseInt_str ''true'' = None" "parseInt_str ''false'' = None"
  "parseInt_str ''Infinity'' = None" "parseInt_str ''-Infinity'' = None"
  "parseInt_str ''0'' = Some 0"
  by code_simp+

lemma parseInt_truthy: "parseInt v = Some n \<Longrightarrow> n \<noteq> 0 \<Longrightarrow> truthy v"
proof (cases v)
  case (JNum x)
  assume p: "parseInt v = Some n" and n: "n \<noteq> 0"
  show ?thesis
  proof (cases x)
    case (Fin m e)
    show ?thesis
    proof (cases "m = 0")
      case True
      with p JNum Fin have "n = 0"
        by (simp add: parseInt_def num_to_string_def parseInt_str_words)
      with n show ?thesis by simp
    next
      case False
      with JNum Fin show ?thesis by simp
    qed
  next
    case (Inf neg)
    with JNum show ?thesis by simp
  qed
qed (auto simp: parseInt_def parseInt_str_words parseInt_str_Nil split: if_splits)

lemma trim_Nil: "trim [] = []"
  by (simp add: trim_def)

subsection \<open>Ports stay distinct in the store\<close>

lemma distinct_ports_prune:
  "distinct (map port st) \<Longrightarrow> distinct (map port (pruneExpired t st))"
  by (simp add: pruneExpired_def distinct_map_filter)

lemma set_splice1: "set (splice1 i xs) \<subseteq> set xs"
  by (auto simp: splice1_def dest: in_set_takeD in_set_dropD)

lemma distinct_ports_splice1:
  "distinct (map port st) \<Longrightarrow> distinct (map port (splice1 i st))"
proof (induction st arbitrary: i)
  case Nil
  then show ?case by (simp add: splice1_def)
next
  case (Cons r rs)
  show ?case
  proof (cases i)
    case 0
    with Cons.prems show ?thesis by (simp add: splice1_def)
  next
    case (Suc j)
    have eq: "splice1 (Suc j) (r # rs) = r # splice1 j rs"
      by (simp add: splice1_def)
    from Cons.prems have "port r \<notin> port ` set (splice1 j rs)"
      using set_splice1 [of j rs] by auto
    moreover from Cons have "distinct (map port (splice1 j rs))" by simp
    ultimately show ?thesis using Suc eq by simp
  qed
qed

lemma map_port_heartbeat:
  "map port (st[i := (st ! i)\<lparr> expiresAt := a, lastHeartbeat := b \<rparr>]) = map port st"
  by (induction st arbitrary: i) (auto split: nat.splits)

lemma register_distinct:
  "distinct (map port st) \<Longrightarrow> distinct (map port (fst (register_handler st body tp tn tr)))"
  by (auto simp: register_handler_def Let_def distinct_ports_prune find_None_iff
           split: option.splits)

lemma heartbeat_distinct:
  "distinct (map port st) \<Longrightarrow> distinct (map port (fst (heartbeat_handler st q a tn th)))"
  by (auto simp: heartbeat_handler_def map_port_heartbeat split: option.splits)

lemma release_distinct:
  "distinct (map port st) \<Longrightarrow> distinct (map port (fst (release_handler st q a)))"
  by (auto simp: release_handler_def distinct_ports_splice1 split: option.splits)

lemma step_distinct: "distinct (map port st) \<Longrightarrow> distinct (map port (step st req))"
proof (cases req)
  case (ListPorts e tp)
  assume "distinct (map port st)"
  then show ?thesis using ListPorts by (simp add: list_handler_def Let_def distinct_ports_prune)
next
  case (SystemPorts e tp)
  assume "distinct (map port st)"
  then show ?thesis using SystemPorts
    by (simp add: system_handler_def Let_def split: option.splits)
next
  case (CheckPort q e tp)
  assume "distinct (map port st)"
  then show ?thesis using CheckPort
    by (simp add: check_handler_def Let_def distinct_ports_prune split: option.splits)
next
  case (Register body tp tn tr)
  assume "distinct (map port st)"
  then show ?thesis using Register by (simp add: register_distinct)
next
  case (Heartbeat q a tn th)
  assume "distinct (map port st)"
  then show ?thesis using Heartbeat by (simp add: heartbeat_distinct)
next
  case (Release q a)
  assume "distinct (map port st)"
  then show ?thesis using Release by (simp add: release_distinct)
next
  case ClearAll
  then show ?thesis by (simp add: clear_handler_def)
next
  case (Suggest qmin qmax e tp)
  assume "distinct (map port st)"
  then show ?thesis using Suggest by (simp add: suggest_handler_def Let_def)
qed

lemma foldl_step_distinct:
  "distinct (map port st) \<Longrightarrow> distinct (map port (foldl step st reqs))"
  by (induction reqs arbitrary: st) (simp_all add: step_distinct)

lemma distinct_key_count:
  "distinct (map f xs) \<Longrightarrow> length (filter (\<lambda>x. f x = k) xs) \<le> 1"
proof (induction xs)
  case Nil
  then show ?case by simp
next
  case (Cons x xs)
  show ?case
  proof (cases "f x = k")
    case True
    with Cons.prems have "filter (\<lambda>y. f y = k) xs = []"
      by (auto simp: filter_empty_conv image_iff)
    with True show ?thesis by simp
  next
    case False
    with Cons show ?thesis by simp
  qed
qed

text \<open>
  C1. Whatever requests were served since the first run (register, heartbeat, release,
  clear-all, and the routes that prune: listing, check, suggest, system view), and at
  whatever instant \<open>t\<close> the store is pruned, the pruned registrations hold at most one
  entry of any port \<open>p\<close>.
\<close>

theorem one_active_registration_per_port:
  "length (filter (\<lambda>r. port r = p) (pruneExpired t (run reqs))) \<le> 1"
proof -
  have "distinct (map port (run reqs))"
    unfolding run_def by (rule foldl_step_distinct) simp
  then have "distinct (map port (pruneExpired t (run reqs)))"
    by (rule distinct_ports_prune)
  then show ?thesis by (rule distinct_key_count)
qed

text \<open>
  An instance: port 8080 is registered for one minute, registered again by another agent
  after the first lease ran out, and renewed.
\<close>

theorem one_active_registration_per_port_witness:
  "length (filter (\<lambda>r. port r = 8080)
     (pruneExpired 120000
        (run [Register \<lparr> b_port = JNum (Fin 8080 0), b_agent = JStr ''a'', b_reason = JStr ''web'',
                          b_ttlMinutes = JNum (Fin 1 0) \<rparr> 1000 1000 1000,
              Register \<lparr> b_port = JStr ''8080'', b_agent = JStr ''b'', b_reason = JStr ''api'',
                          b_ttlMinutes = JUndefined \<rparr> 90000 90000 90000,
              Heartbeat ''8080'' (JStr ''b'') 100000 100000]))) \<le> 1"
  using one_active_registration_per_port
    [of 8080 120000
        "[Register \<lparr> b_port = JNum (Fin 8080 0), b_agent = JStr ''a'', b_reason = JStr ''web'',
                     b_ttlMinutes = JNum (Fin 1 0) \<rparr> 1000 1000 1000,
          Register \<lparr> b_port = JStr ''8080'', b_agent = JStr ''b'', b_reason = JStr ''api'',
                     b_ttlMinutes = JUndefined \<rparr> 90000 90000 90000,
          Heartbeat ''8080'' (JStr ''b'') 100000 100000]"]
  by simp

subsection \<open>Registering\<close>

lemma port_valid:
  "parseInt v = Some n \<Longrightarrow> 1 \<le> n \<Longrightarrow> n \<le> 65535 \<Longrightarrow> \<not> port_invalid v"
  using parseInt_truthy [of v n] by (simp add: port_invalid_def)


lemma text_present: "trim a \<noteq> [] \<Longrightarrow> \<not> text_missing (JStr a)"
  by (auto simp: text_missing_def trim_Nil)


lemma find_unexpired_None:
  "find (\<lambda>r. port r = n) (pruneExpired t st) = None
     \<longleftrightarrow> \<not> (\<exists>r\<in>set st. unexpired t r \<and> port r = n)"
  by (auto simp: find_None_iff pruneExpired_def)



lemma register_accepted:
  assumes "parseInt (b_port body) = Some n" "1 \<le> n" "n \<le> 65535"
    and "b_agent body = JStr a" "trim a \<noteq> []"
    and "b_reason body = JStr w" "trim w \<noteq> []"
  shows "register_handler st body tp tn tr =
           (case find (\<lambda>r. port r = n) (pruneExpired tp st) of
              Some existing \<Rightarrow> (st, Inl (Conflict existing))
            | None \<Rightarrow>
                (pruneExpired tp st @
                   [\<lparr> port = n, agent = trim a, reason = trim w, registeredAt = tr,
                      expiresAt = map_option (\<lambda>ttl. tn + ttl) (ttl_of (b_ttlMinutes body)),
                      rid = (n, tn), lastHeartbeat = None \<rparr>],
                 Inr \<lparr> port = n, agent = trim a, reason = trim w, registeredAt = tr,
                       expiresAt = map_option (\<lambda>ttl. tn + ttl) (ttl_of (b_ttlMinutes body)),
                       rid = (n, tn), lastHeartbeat = None \<rparr>))"
  using assms port_valid [of "b_port body" n] text_present [of a] text_present [of w]
  by (simp add: register_handler_def Let_def trimmed_def split: option.splits)



lemma unexpired_fresh: "expiresAt r = Some (t + TTL_MS) \<Longrightarrow> unexpired t r"
  by (simp add: unexpired_def TTL_MS_def)




text \<open>
  C10. A register request with \<open>ttlMinutes = 0\<close> (the Number zero), a
  valid port, agent and reason, and no unexpired registration on the port is accepted,
  and its registration expires 30 minutes after \<open>now\<close>: it is not expired when it is
  created.
\<close>

theorem register_ttl_zero_uses_default:
  assumes "parseInt (b_port body) = Some n" "1 \<le> n" "n \<le> 65535"
    and "b_agent body = JStr a" "trim a \<noteq> []"
    and "b_reason body = JStr w" "trim w \<noteq> []"
    and "b_ttlMinutes body = JNum (Fin 0 e)"
    and "\<not> (\<exists>x\<in>set st. unexpired tp x \<and> port x = n)"
  shows "\<exists>r. register_handler st body tp tn tr = (pruneExpired tp st @ [r], Inr r)
           \<and> expiresAt r = Some (tn + 30 * 60 * 1000) \<and> unexpired tn r"
proof -
  from assms(9) have none: "find (\<lambda>r. port r = n) (pruneExpired tp st) = None"
    by (simp only: find_unexpired_None not_False_eq_True)
  define r where "r = \<lparr> port = n, agent = trim a, reason = trim w, registeredAt = tr,
      expiresAt = map_option (\<lambda>ttl. tn + ttl) (ttl_of (b_ttlMinutes body)),
      rid = (n, tn), lastHeartbeat = None \<rparr>"
  have "register_handler st body tp tn tr = (pruneExpired tp st @ [r], Inr r)"
    using assms(1-7) by (simp add: register_accepted [of body n a w] none r_def)
  moreover have e: "expiresAt r = Some (tn + TTL_MS)"
    using assms(8) by (simp add: r_def ttl_of_def)
  moreover from e have "unexpired tn r" by (rule unexpired_fresh)
  ultimately show ?thesis by (auto simp: TTL_MS_def)
qed

text \<open>An instance of C10: port 8080 on an empty registry at \<open>now = 1000\<close>.\<close>

theorem register_ttl_zero_uses_default_witness:
  "\<exists>r. register_handler []
          \<lparr> b_port = JNum (Fin 8080 0), b_agent = JStr ''a'', b_reason = JStr ''web'',
            b_ttlMinutes = JNum (Fin 0 0) \<rparr> 1000 1000 1000 = ([r], Inr r)
       \<and> expiresAt r = Some 1801000 \<and> unexpired 1000 r"
proof -
  have p: "parseInt (JNum (Fin 8080 0)) = Some 8080" by code_simp
  show ?thesis
    using register_ttl_zero_uses_default
      [of "\<lparr> b_port = JNum (Fin 8080 0), b_agent = JStr ''a'',
            b_reason = JStr ''web'', b_ttlMinutes = JNum (Fin 0 0) \<rparr>"
          8080 "''a''" "''web''" 0 "[]" 1000 1000 1000]
    by (simp add: p trim_def is_ws_def pruneExpired_def)
qed

subsection \<open>Heartbeat and release\<close>

text \<open>
  The heartbeat looks the port up in the store as it was loaded: Not Found means that
  no stored registration has the port, expired or not. A heartbeat that succeeds changes
  \<open>expiresAt\<close> and \<open>lastHeartbeat\<close> of one registration and nothing else.
\<close>

lemma heartbeat_not_found_iff:
  assumes "parseInt_str param = Some n"
  shows "snd (heartbeat_handler st param agentv tn th) = Inl NotFound
           \<longleftrightarrow> n \<notin> port ` set st"
proof (cases "findIndex (\<lambda>r. port r = n) st")
  case None
  then have "n \<notin> port ` set st" by (auto simp: findIndex_None_iff)
  with None assms show ?thesis
    by (simp add: heartbeat_handler_def port_is_Some)
next
  case (Some i)
  from findIndex_SomeD [OF Some] have "n \<in> port ` set st"
    by (metis image_eqI nth_mem)
  with Some assms show ?thesis
    by (simp add: heartbeat_handler_def port_is_Some)
qed

lemma heartbeat_success:
  assumes "heartbeat_handler st param agentv tn th = (st', Inr e)"
  shows "\<exists>i<length st. port_is (parseInt_str param) (st ! i)
           \<and> st' = st[i := (st ! i)\<lparr> expiresAt := Some (tn + TTL_MS), lastHeartbeat := Some th \<rparr>]
           \<and> e = tn + TTL_MS"
proof (cases "findIndex (port_is (parseInt_str param)) st")
  case None
  with assms show ?thesis by (simp add: heartbeat_handler_def)
next
  case (Some i)
  from findIndex_SomeD [OF Some] Some assms show ?thesis
    by (auto simp: heartbeat_handler_def split: if_splits)
qed

text \<open>
  C4 says that a heartbeat fails Not Found exactly when no unexpired registration holds
  the port. Port 8080 is registered at 1000 for one minute; at 120000 no unexpired
  registration is left after pruning, and the heartbeat of that instant still succeeds
  and renews the expired lease until 1920000.
\<close>

theorem heartbeat_revives_expired:
  "pruneExpired 120000
     (run [Register \<lparr> b_port = JNum (Fin 8080 0), b_agent = JStr ''a'',
                      b_reason = JStr ''web'', b_ttlMinutes = JNum (Fin 1 0) \<rparr>
             1000 1000 1000]) = []
   \<and> heartbeat_handler
       (run [Register \<lparr> b_port = JNum (Fin 8080 0), b_agent = JStr ''a'',
                        b_reason = JStr ''web'', b_ttlMinutes = JNum (Fin 1 0) \<rparr>
               1000 1000 1000])
       ''8080'' (JStr ''a'') 120000 120000
     = ([\<lparr> port = 8080, agent = ''a'', reason = ''web'', registeredAt = 1000,
           expiresAt = Some 1920000, rid = (8080, 1000), lastHeartbeat = Some 120000 \<rparr>],
        Inr 1920000)"
  by code_simp

text \<open>
  C8, as the code has it. When heartbeat or release names a port that a stored
  registration \<open>r\<close> holds and comes with a truthy agent (what \<^verbatim>\<open>agent &&\<close> accepts:
  any value but an absent one, null, false, 0 and the empty string) different from the
  agent of \<open>r\<close>, the request fails Forbidden and the store is what it was.
\<close>

theorem agent_mismatch_forbidden:
  assumes "parseInt_str param = Some n"
    and "find (\<lambda>r. port r = n) st = Some r"
    and "truthy agentv" and "agentv \<noteq> JStr (agent r)"
  shows "heartbeat_handler st param agentv tn th = (st, Inl Forbidden)
       \<and> release_handler st param agentv = (st, Inl Forbidden)"
proof -
  from assms(2) obtain i where i: "findIndex (\<lambda>r. port r = n) st = Some i" "st ! i = r"
    by (auto simp: find_findIndex split: option.splits)
  from i assms(1,3,4) show ?thesis
    by (auto simp: heartbeat_handler_def release_handler_def port_is_Some)
qed

text \<open>
  C8 as stated has every supplied agent that differs fail Forbidden. The empty string,
  supplied as the agent against the registration of agent \<open>a\<close>, differs from \<open>a\<close>; the
  release removes the registration and the heartbeat renews it.
\<close>

theorem agent_mismatch_forbidden_counterexample:
  "release_handler
      [\<lparr> port = 8080, agent = ''a'', reason = ''web'', registeredAt = 1000,
         expiresAt = Some 1801000, rid = (8080, 1000), lastHeartbeat = None \<rparr>]
      ''8080'' (JStr [])
     = ([], Inr \<lparr> port = 8080, agent = ''a'', reason = ''web'', registeredAt = 1000,
                  expiresAt = Some 1801000, rid = (8080, 1000), lastHeartbeat = None \<rparr>)
   \<and> heartbeat_handler
      [\<lparr> port = 8080, agent = ''a'', reason = ''web'', registeredAt = 1000,
         expiresAt = Some 1801000, rid = (8080, 1000), lastHeartbeat = None \<rparr>]
      ''8080'' (JStr []) 5000 5000
     = ([\<lparr> port = 8080, agent = ''a'', reason = ''web'', registeredAt = 1000,
           expiresAt = Some 1805000, rid = (8080, 1000), lastHeartbeat = Some 5000 \<rparr>],
        Inr 1805000)
   \<and> JStr [] \<noteq> JStr ''a''"
  by code_simp

text \<open>An instance of C8: agent \<open>b\<close> against the registration of agent \<open>a\<close>.\<close>

theorem agent_mismatch_forbidden_witness:
  "heartbeat_handler
      [\<lparr> port = 8080, agent = ''a'', reason = ''web'', registeredAt = 1000,
         expiresAt = Some 1801000, rid = (8080, 1000), lastHeartbeat = None \<rparr>]
      ''8080'' (JStr ''b'') 5000 5000
     = ([\<lparr> port = 8080, agent = ''a'', reason = ''web'', registeredAt = 1000,
           expiresAt = Some 1801000, rid = (8080, 1000), lastHeartbeat = None \<rparr>],
        Inl Forbidden)
   \<and> release_handler
      [\<lparr> port = 8080, agent = ''a'', reason = ''web'', registeredAt = 1000,
         expiresAt = Some 1801000, rid = (8080, 1000), lastHeartbeat = None \<rparr>]
      ''8080'' (JStr ''b'')
     = ([\<lparr> port = 8080, agent = ''a'', reason = ''web'', registeredAt = 1000,
           expiresAt = Some 1801000, rid = (8080, 1000), lastHeartbeat = None \<rparr>],
        Inl Forbidden)"
  using agent_mismatch_forbidden
    [of "''8080''" 8080
        "[\<lparr> port = 8080, agent = ''a'', reason = ''web'', registeredAt = 1000,
            expiresAt = Some 1801000, rid = (8080, 1000), lastHeartbeat = None \<rparr>]"
        "\<lparr> port = 8080, agent = ''a'', reason = ''web'', registeredAt = 1000,
            expiresAt = Some 1801000, rid = (8080, 1000), lastHeartbeat = None \<rparr>"
        "JStr ''b''" 5000 5000]
  by (simp add: parseInt_str_def is_digit_def digits_value_def digit_value_def is_ws_def)

subsection \<open>Pruning, checking and suggesting\<close>

lemma pruneExpired_idem: "pruneExpired t (pruneExpired t st) = pruneExpired t st"
  by (simp add: pruneExpired_def)

lemma pruneExpired_unexpired: "x \<in> set (pruneExpired t st) \<Longrightarrow> unexpired t x"
  by (simp add: pruneExpired_def)

lemma register_created_store:
  "snd (register_handler st body tp tn tr) = Inr r
     \<Longrightarrow> fst (register_handler st body tp tn tr) = pruneExpired tp st @ [r]"
  by (auto simp: register_handler_def Let_def split: if_splits option.splits)

lemma check_valid:
  assumes "parseInt_str param = Some n" "1 \<le> n" "n \<le> 65535"
  shows "check_handler st param e tp =
           (pruneExpired tp st,
            Inr \<lparr> c_port = n,
                  available = (find (\<lambda>r. port r = n) (pruneExpired tp st) = None
                               \<and> isPortInUseByOS (netstat e) n None \<noteq> Some True),
                  registeredBy = find (\<lambda>r. port r = n) (pruneExpired tp st),
                  c_osInUse = isPortInUseByOS (netstat e) n None,
                  c_recommendation =
                    (case find (\<lambda>r. port r = n) (pruneExpired tp st) of
                       Some r \<Rightarrow> RegisteredBy (agent r) (reason r)
                     | None \<Rightarrow> if isPortInUseByOS (netstat e) n None = Some True
                               then InUseByOS else AppearsFree) \<rparr>)"
  using assms by (simp add: check_handler_def Let_def)

lemma isPortInUseByOS_scan:
  "isPortInUseByOS out p None =
     (case out of None \<Rightarrow> None | Some t \<Rightarrow> Some (map_of (parse_netstat t) p \<noteq> None))"
  by (simp add: isPortInUseByOS_def getSystemPorts_def split: option.splits)

lemma scan_range_Some_iff:
  "scan_range free p mx = Some r
     \<longleftrightarrow> p \<le> r \<and> r \<le> mx \<and> free r \<and> (\<forall>q. p \<le> q \<and> q < r \<longrightarrow> \<not> free q)"
proof (induction free p mx rule: scan_range.induct)
  case (1 free p mx)
  show ?case
  proof (cases "p \<le> mx")
    case False
    then show ?thesis by (subst scan_range.simps) auto
  next
    case le: True
    show ?thesis
    proof (cases "free p")
      case True
      have "scan_range free p mx = Some p"
        using le True by (subst scan_range.simps) simp
      moreover have "(p \<le> r \<and> r \<le> mx \<and> free r \<and> (\<forall>q. p \<le> q \<and> q < r \<longrightarrow> \<not> free q))
          \<longleftrightarrow> r = p"
        using le True by (auto simp: not_less [symmetric])
      ultimately show ?thesis by auto
    next
      case False
      have "scan_range free p mx = scan_range free (p + 1) mx"
        using le False by (subst scan_range.simps) simp
      moreover have "(p \<le> r \<and> r \<le> mx \<and> free r \<and> (\<forall>q. p \<le> q \<and> q < r \<longrightarrow> \<not> free q))
          \<longleftrightarrow> (p + 1 \<le> r \<and> r \<le> mx \<and> free r \<and> (\<forall>q. p + 1 \<le> q \<and> q < r \<longrightarrow> \<not> free q))"
      proof
        assume l: "p \<le> r \<and> r \<le> mx \<and> free r \<and> (\<forall>q. p \<le> q \<and> q < r \<longrightarrow> \<not> free q)"
        with False have "r \<noteq> p" by auto
        with l have "p + 1 \<le> r" by simp
        moreover from l have "\<forall>q. p + 1 \<le> q \<and> q < r \<longrightarrow> \<not> free q" by simp
        ultimately show "p + 1 \<le> r \<and> r \<le> mx \<and> free r \<and> (\<forall>q. p + 1 \<le> q \<and> q < r \<longrightarrow> \<not> free q)"
          using l by simp
      next
        assume l: "p + 1 \<le> r \<and> r \<le> mx \<and> free r \<and> (\<forall>q. p + 1 \<le> q \<and> q < r \<longrightarrow> \<not> free q)"
        have "\<forall>q. p \<le> q \<and> q < r \<longrightarrow> \<not> free q"
        proof (intro allI impI)
          fix q assume q: "p \<le> q \<and> q < r"
          show "\<not> free q"
          proof (cases "q = p")
            case True
            with False show ?thesis by simp
          next
            case ne: False
            with q have "p + 1 \<le> q \<and> q < r" by simp
            with l show ?thesis by blast
          qed
        qed
        with l show "p \<le> r \<and> r \<le> mx \<and> free r \<and> (\<forall>q. p \<le> q \<and> q < r \<longrightarrow> \<not> free q)"
          by simp
      qed
      ultimately show ?thesis using "1.IH" [OF le False] by simp
    qed
  qed
qed



lemma suggest_scan:
  "snd (suggest_handler st qmin qmax e tp) =
     (case scan_range
             (\<lambda>p. p \<notin> port ` set (pruneExpired tp st)
                   \<and> (case netstat e of None \<Rightarrow> True
                       | Some out \<Rightarrow> map_of (parse_netstat out) p = None))
             (or_default (parseInt qmin) 3000) (or_default (parseInt qmax) 9999) of
        Some p \<Rightarrow> Inr p
      | None \<Rightarrow> Inl NotFound)"
proof -
  have "(\<lambda>p. p \<notin> set (map port (pruneExpired tp st))
              \<and> isPortInUseByOS (netstat e) p (Some (getSystemPorts (netstat e))) \<noteq> Some True)
      = (\<lambda>p. p \<notin> port ` set (pruneExpired tp st)
              \<and> (case netstat e of None \<Rightarrow> True
                  | Some out \<Rightarrow> map_of (parse_netstat out) p = None))"
    by (rule ext) (simp add: isPortInUseByOS_def getSystemPorts_def split: option.splits)
  then show ?thesis by (simp add: suggest_handler_def Let_def)
qed

lemma sum_case_Inr_iff:
  "((case x of Some p \<Rightarrow> Inr p | None \<Rightarrow> Inl NotFound) = (Inr r :: error + int)) \<longleftrightarrow> x = Some r"
  by (cases x) auto


text \<open>
  C2, as the code has it. The listing and a check of a valid port prune the store first
  and save the pruned list at once; a register that succeeds saves the pruned list with
  the new registration appended; suggest prunes for its own scan, so it answers as it
  would on the pruned store. Every registration of a pruned list with a non-zero
  \<open>expiresAt\<close> expires after \<open>now\<close>.
\<close>

theorem prune_and_persist:
  "fst (list_handler st e tp) = pruneExpired tp st
   \<and> (parseInt_str param = Some n \<and> 1 \<le> n \<and> n \<le> 65535
        \<longrightarrow> fst (check_handler st param e tp) = pruneExpired tp st)
   \<and> (snd (register_handler st body tp tn tr) = Inr r
        \<longrightarrow> fst (register_handler st body tp tn tr) = pruneExpired tp st @ [r])
   \<and> snd (suggest_handler st qmin qmax e tp)
       = snd (suggest_handler (pruneExpired tp st) qmin qmax e tp)
   \<and> (\<forall>x\<in>set (pruneExpired tp st). \<forall>t. expiresAt x = Some t \<and> t \<noteq> 0 \<longrightarrow> tp < t)"
proof (intro conjI impI ballI allI)
  show "fst (list_handler st e tp) = pruneExpired tp st"
    by (simp add: list_handler_def Let_def)
  show "fst (check_handler st param e tp) = pruneExpired tp st"
    if "parseInt_str param = Some n \<and> 1 \<le> n \<and> n \<le> 65535"
    using that by (simp add: check_valid [of param n])
  show "fst (register_handler st body tp tn tr) = pruneExpired tp st @ [r]"
    if "snd (register_handler st body tp tn tr) = Inr r"
    using that by (rule register_created_store)
  show "snd (suggest_handler st qmin qmax e tp)
       = snd (suggest_handler (pruneExpired tp st) qmin qmax e tp)"
    by (simp only: suggest_scan pruneExpired_idem)
  show "tp < t" if "x \<in> set (pruneExpired tp st)" "expiresAt x = Some t \<and> t \<noteq> 0" for x t
    using pruneExpired_unexpired [OF that(1)] that(2) by (simp add: unexpired_def)
qed

text \<open>
  C2 as stated has every route prune and save. A registration that expired at 61000 is
  still stored after a suggest and after a release of another port, both at 120000.
\<close>

theorem prune_and_persist_counterexample:
  "fst (suggest_handler
          [\<lparr> port = 8080, agent = ''a'', reason = ''web'', registeredAt = 1000,
             expiresAt = Some 61000, rid = (8080, 1000), lastHeartbeat = None \<rparr>]
          JUndefined JUndefined \<lparr> netstat = None, tasklist = None \<rparr> 120000)
     = [\<lparr> port = 8080, agent = ''a'', reason = ''web'', registeredAt = 1000,
          expiresAt = Some 61000, rid = (8080, 1000), lastHeartbeat = None \<rparr>]
   \<and> fst (release_handler
          [\<lparr> port = 8080, agent = ''a'', reason = ''web'', registeredAt = 1000,
             expiresAt = Some 61000, rid = (8080, 1000), lastHeartbeat = None \<rparr>]
          ''9090'' JUndefined)
     = [\<lparr> port = 8080, agent = ''a'', reason = ''web'', registeredAt = 1000,
          expiresAt = Some 61000, rid = (8080, 1000), lastHeartbeat = None \<rparr>]
   \<and> (61000 :: int) \<le> 120000
   \<and> pruneExpired 120000
        [\<lparr> port = 8080, agent = ''a'', reason = ''web'', registeredAt = 1000,
           expiresAt = Some 61000, rid = (8080, 1000), lastHeartbeat = None \<rparr>] = []"
  by code_simp

text \<open>An instance of C2: a check at 120000 drops the registration that expired at 61000.\<close>

theorem prune_and_persist_witness:
  "fst (check_handler
          [\<lparr> port = 8080, agent = ''a'', reason = ''web'', registeredAt = 1000,
             expiresAt = Some 61000, rid = (8080, 1000), lastHeartbeat = None \<rparr>]
          ''9090'' \<lparr> netstat = None, tasklist = None \<rparr> 120000) = []"
proof -
  have 1: "parseInt_str ''9090'' = Some 9090" by code_simp
  show ?thesis
    using prune_and_persist
      [of "[\<lparr> port = 8080, agent = ''a'', reason = ''web'', registeredAt = 1000,
             expiresAt = Some 61000, rid = (8080, 1000), lastHeartbeat = None \<rparr>]"
          "\<lparr> netstat = None, tasklist = None \<rparr>" 120000 "''9090''" 9090]
    by (simp add: 1 pruneExpired_def unexpired_def)
qed




subsection \<open>When the OS scan is unavailable\<close>

text \<open>
  C6, as the code has it. The check of a valid port reports the scan in \<open>osInUse\<close>:
  \<open>None\<close> when the scan is unavailable, and whether the port is bound when it is
  available. Its \<open>available\<close> flag and suggest take an unavailable scan for nothing
  bound: with no scan, a port is reported available exactly when no unexpired
  registration holds it, and suggest answers the lowest unregistered port of its range.
\<close>

theorem scan_outage_availability:
  "(netstat e = None \<and> parseInt_str param = Some n \<and> 1 \<le> n \<and> n \<le> 65535
      \<longrightarrow> (\<exists>resp. check_handler st param e tp = (pruneExpired tp st, Inr resp)
             \<and> c_osInUse resp = None
             \<and> (available resp \<longleftrightarrow> \<not> (\<exists>r\<in>set st. unexpired tp r \<and> port r = n))))
   \<and> (netstat e = Some out \<and> parseInt_str param = Some n \<and> 1 \<le> n \<and> n \<le> 65535
      \<longrightarrow> (\<exists>resp. check_handler st param e tp = (pruneExpired tp st, Inr resp)
             \<and> c_osInUse resp = Some (map_of (parse_netstat out) n \<noteq> None)))
   \<and> (netstat e = None
      \<longrightarrow> (snd (suggest_handler st qmin qmax e tp) = Inr p
             \<longleftrightarrow> or_default (parseInt qmin) 3000 \<le> p \<and> p \<le> or_default (parseInt qmax) 9999
                 \<and> p \<notin> port ` set (pruneExpired tp st)
                 \<and> (\<forall>q. or_default (parseInt qmin) 3000 \<le> q \<and> q < p
                       \<longrightarrow> q \<in> port ` set (pruneExpired tp st))))"
proof (intro conjI impI)
  assume a: "netstat e = None \<and> parseInt_str param = Some n \<and> 1 \<le> n \<and> n \<le> 65535"
  then show "\<exists>resp. check_handler st param e tp = (pruneExpired tp st, Inr resp)
             \<and> c_osInUse resp = None
             \<and> (available resp \<longleftrightarrow> \<not> (\<exists>r\<in>set st. unexpired tp r \<and> port r = n))"
    by (simp add: check_valid [of param n] isPortInUseByOS_scan find_unexpired_None)
next
  assume a: "netstat e = Some out \<and> parseInt_str param = Some n \<and> 1 \<le> n \<and> n \<le> 65535"
  then show "\<exists>resp. check_handler st param e tp = (pruneExpired tp st, Inr resp)
             \<and> c_osInUse resp = Some (map_of (parse_netstat out) n \<noteq> None)"
    by (simp add: check_valid [of param n] isPortInUseByOS_scan)
next
  assume "netstat e = None"
  then show "snd (suggest_handler st qmin qmax e tp) = Inr p
             \<longleftrightarrow> or_default (parseInt qmin) 3000 \<le> p \<and> p \<le> or_default (parseInt qmax) 9999
                 \<and> p \<notin> port ` set (pruneExpired tp st)
                 \<and> (\<forall>q. or_default (parseInt qmin) 3000 \<le> q \<and> q < p
                       \<longrightarrow> q \<in> port ` set (pruneExpired tp st))"
    by (simp only: suggest_scan sum_case_Inr_iff scan_range_Some_iff option.case simp_thms
          not_not)
qed

text \<open>
  C6 as stated has check and suggest never report a port free because the scan is
  absent. With no scan and an empty registry, check reports 8080 available and suggest
  answers 8080.
\<close>

theorem scan_outage_availability_counterexample:
  "check_handler [] ''8080'' \<lparr> netstat = None, tasklist = None \<rparr> 5
     = ([], Inr \<lparr> c_port = 8080, available = True, registeredBy = None, c_osInUse = None,
                  c_recommendation = AppearsFree \<rparr>)
   \<and> suggest_handler [] (JStr ''8080'') (JStr ''8090'') \<lparr> netstat = None, tasklist = None \<rparr> 5
     = ([], Inr 8080)"
  by code_simp

text \<open>An instance of C6: the check of port 8080 with no scan and an empty registry.\<close>

theorem scan_outage_availability_witness:
  "\<exists>resp. check_handler [] ''8080'' \<lparr> netstat = None, tasklist = None \<rparr> 5 = ([], Inr resp)
       \<and> c_osInUse resp = None \<and> available resp"
proof -
  have 1: "parseInt_str ''8080'' = Some 8080" by code_simp
  show ?thesis
    using scan_outage_availability
      [of "\<lparr> netstat = None, tasklist = None \<rparr>" "''8080''" 8080 "[]" 5]
    by (simp add: 1 pruneExpired_def)
qed

text \<open>
  C7. When the network-state utility fails or times out, the system-ports route fails
  with Scan Unavailable (status 500) and leaves the store alone, while the listing still
  succeeds with the pruned registrations, each annotated with \<open>osInUse = None\<close>
  (unknown).
\<close>

theorem scan_unavailable_degrades:
  assumes "netstat e = None"
  shows "system_handler st e tp = (st, Inl ScanUnavailable)
       \<and> status_of ScanUnavailable = 500
       \<and> (\<exists>out. list_handler st e tp = (pruneExpired tp st, Inr (out, length out))
                \<and> map reg out = pruneExpired tp st
                \<and> (\<forall>x\<in>set out. osInUse x = None))"
  using assms
  by (simp add: system_handler_def list_handler_def getSystemPorts_def enrich_def Let_def
        comp_def)

text \<open>An instance of C7: one registration and a failed scan.\<close>

theorem scan_unavailable_degrades_witness:
  "system_handler
      [\<lparr> port = 8080, agent = ''a'', reason = ''web'', registeredAt = 1000,
         expiresAt = Some 1801000, rid = (8080, 1000), lastHeartbeat = None \<rparr>]
      \<lparr> netstat = None, tasklist = None \<rparr> 2000
     = ([\<lparr> port = 8080, agent = ''a'', reason = ''web'', registeredAt = 1000,
           expiresAt = Some 1801000, rid = (8080, 1000), lastHeartbeat = None \<rparr>],
        Inl ScanUnavailable)
   \<and> (\<exists>out. list_handler
          [\<lparr> port = 8080, agent = ''a'', reason = ''web'', registeredAt = 1000,
             expiresAt = Some 1801000, rid = (8080, 1000), lastHeartbeat = None \<rparr>]
          \<lparr> netstat = None, tasklist = None \<rparr> 2000
        = ([\<lparr> port = 8080, agent = ''a'', reason = ''web'', registeredAt = 1000,
              expiresAt = Some 1801000, rid = (8080, 1000), lastHeartbeat = None \<rparr>],
           Inr (out, 1))
        \<and> map osInUse out = [None])"
  using scan_unavailable_degrades
    [of "\<lparr> netstat = None, tasklist = None \<rparr>"
        "[\<lparr> port = 8080, agent = ''a'', reason = ''web'', registeredAt = 1000,
            expiresAt = Some 1801000, rid = (8080, 1000), lastHeartbeat = None \<rparr>]" 2000]
  by (auto simp: pruneExpired_def unexpired_def)

subsection \<open>Parsing the network-state output\<close>

lemma digit_not_ws: "is_digit c \<Longrightarrow> \<not> is_ws c"
  by (auto simp: is_digit_def is_ws_def)

lemma digit_not_sign: "is_digit c \<Longrightarrow> c \<noteq> CHR ''-'' \<and> c \<noteq> CHR ''+''"
  by (auto simp: is_digit_def)

lemma digit_not_x: "is_digit c \<Longrightarrow> c \<noteq> CHR ''x'' \<and> c \<noteq> CHR ''X''"
  by (auto simp: is_digit_def)

lemma parseInt_str_digits:
  assumes "s \<noteq> []" and "\<forall>c\<in>set s. is_digit c"
  shows "parseInt_str s = Some (digits_value 10 s)"
proof -
  from assms obtain c cs where s: "s = c # cs" and c: "is_digit c"
    by (cases s) auto
  have ws: "dropWhile is_ws s = s"
    using s c by (simp add: digit_not_ws)
  have sign: "take 1 s \<noteq> ''-''" "take 1 s \<noteq> ''+''"
    using s digit_not_sign [OF c] by simp_all
  have hex: "take 2 s \<noteq> ''0x''" "take 2 s \<noteq> ''0X''"
  proof -
    show "take 2 s \<noteq> ''0x''"
    proof (cases cs)
      case Nil
      with s show ?thesis by simp
    next
      case (Cons d ds)
      with assms(2) s have "is_digit d" by simp
      from digit_not_x [OF this] s Cons show ?thesis by simp
    qed
    show "take 2 s \<noteq> ''0X''"
    proof (cases cs)
      case Nil
      with s show ?thesis by simp
    next
      case (Cons d ds)
      with assms(2) s have "is_digit d" by simp
      from digit_not_x [OF this] s Cons show ?thesis by simp
    qed
  qed
  have tw: "takeWhile is_digit s = s"
    using assms(2) by (simp add: takeWhile_eq_all_conv)
  show ?thesis
    unfolding parseInt_str_def Let_def ws
    using sign hex assms(1) by (simp add: tw)
qed

lemma match_tail_digits:
  "match_tail s = Some (portStr, st, pidStr)
     \<Longrightarrow> portStr \<noteq> [] \<and> (\<forall>c\<in>set portStr. is_digit c)
         \<and> pidStr \<noteq> [] \<and> (\<forall>c\<in>set pidStr. is_digit c)"
  by (auto simp: match_tail_def Let_def split: if_splits dest: set_takeWhileD)

lemma lazy_bracket_digits:
  "lazy_bracket s = Some (portStr, st, pidStr)
     \<Longrightarrow> portStr \<noteq> [] \<and> (\<forall>c\<in>set portStr. is_digit c)
         \<and> pidStr \<noteq> [] \<and> (\<forall>c\<in>set pidStr. is_digit c)"
proof (induction s)
  case Nil
  then show ?case by simp
next
  case (Cons c cs)
  show ?case
  proof (cases "if c = CHR '']'' \<and> take 1 cs = '':'' then match_tail (drop 1 cs) else None")
    case None
    with Cons.prems have "lazy_bracket cs = Some (portStr, st, pidStr)"
      by (simp split: if_splits)
    then show ?thesis by (rule Cons.IH)
  next
    case (Some m)
    with Cons.prems have "match_tail (drop 1 cs) = Some (portStr, st, pidStr)"
      by (simp split: if_splits)
    then show ?thesis by (rule match_tail_digits)
  qed
qed

lemma match_head_proto: "match_head l = Some (pr, s) \<Longrightarrow> pr = ''TCP'' \<or> pr = ''UDP''"
  by (auto simp: match_head_def Let_def split: if_splits)

lemma match_line_shape:
  assumes "match_line l = Some (pr, portStr, st, pidStr)"
  shows "(pr = ''TCP'' \<or> pr = ''UDP'')
       \<and> portStr \<noteq> [] \<and> (\<forall>c\<in>set portStr. is_digit c)
       \<and> pidStr \<noteq> [] \<and> (\<forall>c\<in>set pidStr. is_digit c)"
proof (cases "match_v4 l")
  case None
  with assms have v6: "match_v6 l = Some (pr, portStr, st, pidStr)"
    by (simp add: match_line_def)
  then obtain s2 where h: "match_head l = Some (pr, s2)"
    by (auto simp: match_v6_def split: option.splits list.splits if_splits)
  from v6 h obtain s3 where "lazy_bracket s3 = Some (portStr, st, pidStr)"
    by (auto simp: match_v6_def split: option.splits list.splits if_splits)
  from lazy_bracket_digits [OF this] match_head_proto [OF h] show ?thesis by simp
next
  case (Some m)
  with assms have v4: "match_v4 l = Some (pr, portStr, st, pidStr)"
    by (simp add: match_line_def)
  then obtain s2 where h: "match_head l = Some (pr, s2)"
    by (auto simp: match_v4_def split: option.splits list.splits if_splits)
  from v4 h obtain s3 where "match_tail s3 = Some (portStr, st, pidStr)"
    by (auto simp: match_v4_def split: option.splits list.splits if_splits)
  from match_tail_digits [OF this] match_head_proto [OF h] show ?thesis by simp
qed

lemma match_line_parse:
  assumes "match_line l = Some (pr, portStr, st, pidStr)"
  shows "parseInt_str portStr = Some (digits_value 10 portStr)
       \<and> parseInt_str pidStr = Some (digits_value 10 pidStr)"
  using match_line_shape [OF assms] by (simp add: parseInt_str_digits)

lemma scan_row_unmatched: "match_line l = None \<Longrightarrow> scan_row pm l = pm"
  by (simp add: scan_row_def)

lemma scan_row_matched:
  assumes "match_line l = Some (pr, portStr, st, pidStr)"
  shows "scan_row pm l =
           (if pr = ''TCP'' \<and> st \<noteq> ''LISTENING'' then pm
            else if 0 < digits_value 10 portStr \<and> digits_value 10 portStr \<le> 65535
                    \<and> map_of pm (digits_value 10 portStr) = None
                 then pm @ [(digits_value 10 portStr,
                             \<lparr> pid = digits_value 10 pidStr, proto = pr,
                               state = (if pr = ''UDP'' then ''UDP'' else st) \<rparr>)]
                 else pm)"
  using match_line_parse [OF assms] assms by (simp add: scan_row_def)

lemma scan_row_alone:
  "scan_row [] l = [] \<or> (\<exists>pn b. scan_row [] l = [(pn, b)])"
proof (cases "match_line l")
  case None
  then show ?thesis by (simp add: scan_row_unmatched)
next
  case (Some m)
  then obtain pr portStr st pidStr where "match_line l = Some (pr, portStr, st, pidStr)"
    by (cases m) auto
  then show ?thesis by (simp add: scan_row_matched)
qed

lemma scan_row_skip: "scan_row [] l = [] \<Longrightarrow> scan_row pm l = pm"
proof (cases "match_line l")
  case None
  then show ?thesis by (simp add: scan_row_unmatched)
next
  case (Some m)
  assume e: "scan_row [] l = []"
  from Some obtain pr portStr st pidStr where m: "match_line l = Some (pr, portStr, st, pidStr)"
    by (cases m) auto
  from e show ?thesis
    by (auto simp: scan_row_matched [OF m] split: if_splits)
qed

lemma scan_row_add:
  assumes "scan_row [] l = [(pn, b)]"
  shows "scan_row pm l = (if map_of pm pn = None then pm @ [(pn, b)] else pm)"
proof (cases "match_line l")
  case None
  with assms show ?thesis by (simp add: scan_row_unmatched)
next
  case (Some m)
  then obtain pr portStr st pidStr where m: "match_line l = Some (pr, portStr, st, pidStr)"
    by (cases m) auto
  from assms show ?thesis
    by (simp add: scan_row_matched [OF m] split: if_splits)
qed

lemma scan_row_entry:
  assumes "scan_row [] l = [(pn, b)]"
  shows "1 \<le> pn \<and> pn \<le> 65535
       \<and> (proto b = ''TCP'' \<longrightarrow> state b = ''LISTENING'')
       \<and> (proto b = ''UDP'' \<longrightarrow> state b = ''UDP'')"
proof (cases "match_line l")
  case None
  with assms show ?thesis by (simp add: scan_row_unmatched)
next
  case (Some m)
  then obtain pr portStr st pidStr where m: "match_line l = Some (pr, portStr, st, pidStr)"
    by (cases m) auto
  from assms show ?thesis
    by (auto simp: scan_row_matched [OF m] split: if_splits)
qed

lemma scan_row_tcp_not_listening:
  "match_line l = Some (''TCP'', portStr, st, pidStr) \<Longrightarrow> st \<noteq> ''LISTENING''
     \<Longrightarrow> scan_row pm l = pm"
  by (simp add: scan_row_def)

lemma map_of_scan_row_keep:
  assumes "map_of pm k = Some b"
  shows "map_of (scan_row pm l) k = Some b"
proof -
  from scan_row_alone [of l] show ?thesis
  proof (elim disjE exE)
    assume "scan_row [] l = []"
    from scan_row_skip [OF this, of pm] assms show ?thesis by simp
  next
    fix pn c assume "scan_row [] l = [(pn, c)]"
    from scan_row_add [OF this, of pm] assms show ?thesis
      by (auto simp: map_add_def)
  qed
qed

lemma map_of_foldl_keep:
  "map_of pm k = Some b \<Longrightarrow> map_of (foldl scan_row pm ls) k = Some b"
  by (induction ls arbitrary: pm) (simp_all add: map_of_scan_row_keep)

lemma map_of_scan_row_other:
  assumes "map_of pm k = None" and "\<forall>b. scan_row [] l \<noteq> [(k, b)]"
  shows "map_of (scan_row pm l) k = None"
proof -
  from scan_row_alone [of l] show ?thesis
  proof (elim disjE exE)
    assume "scan_row [] l = []"
    from scan_row_skip [OF this, of pm] assms show ?thesis by simp
  next
    fix pn c assume e: "scan_row [] l = [(pn, c)]"
    with assms(2) have "pn \<noteq> k" by auto
    with scan_row_add [OF e, of pm] assms(1) show ?thesis
      by (auto simp: map_add_def)
  qed
qed

lemma map_of_foldl_other:
  "map_of pm k = None \<Longrightarrow> \<forall>x\<in>set xs. \<forall>b. scan_row [] x \<noteq> [(k, b)]
     \<Longrightarrow> map_of (foldl scan_row pm xs) k = None"
  by (induction xs arbitrary: pm) (simp_all add: map_of_scan_row_other)

lemma first_row_wins:
  assumes "scan_row [] l = [(pn, b)]"
    and "\<forall>x\<in>set xs. \<forall>b'. scan_row [] x \<noteq> [(pn, b')]"
  shows "map_of (foldl scan_row [] (xs @ l # ys)) pn = Some b"
proof -
  have "map_of (foldl scan_row [] xs) pn = None"
    using assms(2) by (simp add: map_of_foldl_other)
  then have "map_of (scan_row (foldl scan_row [] xs) l) pn = Some b"
    by (simp add: scan_row_add [OF assms(1)] map_add_def)
  then show ?thesis by (simp add: map_of_foldl_keep)
qed

lemma scan_row_entries:
  assumes "\<forall>(p, b)\<in>set pm. P p b"
    and "\<And>pn b. scan_row [] l = [(pn, b)] \<Longrightarrow> P pn b"
  shows "\<forall>(p, b)\<in>set (scan_row pm l). P p b"
proof -
  from scan_row_alone [of l] show ?thesis
  proof (elim disjE exE)
    assume "scan_row [] l = []"
    from scan_row_skip [OF this, of pm] assms(1) show ?thesis by simp
  next
    fix pn c assume e: "scan_row [] l = [(pn, c)]"
    from assms(2) [OF e] scan_row_add [OF e, of pm] assms(1) show ?thesis
      by auto
  qed
qed

lemma foldl_scan_row_entries:
  assumes "\<forall>(p, b)\<in>set pm. P p b"
    and "\<And>l pn b. scan_row [] l = [(pn, b)] \<Longrightarrow> P pn b"
  shows "\<forall>(p, b)\<in>set (foldl scan_row pm ls). P p b"
  using assms(1)
proof (induction ls arbitrary: pm)
  case Nil
  then show ?case by simp
next
  case (Cons l ls)
  have "\<forall>(p, b)\<in>set (scan_row pm l). P p b"
    using Cons.prems assms(2) by (rule scan_row_entries)
  then show ?case by (simp add: Cons.IH)
qed

text \<open>
  What holds of the parsed map for every output \<open>out\<close> of the utility: every key is a
  port of 1 .. 65535, every TCP entry has the state LISTENING and every UDP entry the
  label UDP; a matching TCP row with another state adds nothing to any map; and when
  rows share a port, the map holds the entry of the first row that adds it
  (\<open>scan_row [] l\<close> is what row \<open>l\<close> adds to an empty map).
\<close>

lemma netstat_map_rules:
  "(\<forall>(p, b)\<in>set (parse_netstat out).
       1 \<le> p \<and> p \<le> 65535
       \<and> (proto b = ''TCP'' \<longrightarrow> state b = ''LISTENING'')
       \<and> (proto b = ''UDP'' \<longrightarrow> state b = ''UDP''))
   \<and> (match_line l = Some (''TCP'', portStr, st, pidStr) \<and> st \<noteq> ''LISTENING''
        \<longrightarrow> scan_row pm l = pm)
   \<and> (split_lines out = xs @ l # ys \<and> scan_row [] l = [(k, b)]
        \<and> (\<forall>x\<in>set xs. \<forall>b'. scan_row [] x \<noteq> [(k, b')])
        \<longrightarrow> map_of (parse_netstat out) k = Some b)"
proof (intro conjI impI)
  show "\<forall>(p, b)\<in>set (parse_netstat out).
       1 \<le> p \<and> p \<le> 65535
       \<and> (proto b = ''TCP'' \<longrightarrow> state b = ''LISTENING'')
       \<and> (proto b = ''UDP'' \<longrightarrow> state b = ''UDP'')"
    unfolding parse_netstat_def
    by (rule foldl_scan_row_entries) (simp_all add: scan_row_entry)
next
  assume "match_line l = Some (''TCP'', portStr, st, pidStr) \<and> st \<noteq> ''LISTENING''"
  then show "scan_row pm l = pm" by (simp add: scan_row_tcp_not_listening)
next
  assume "split_lines out = xs @ l # ys \<and> scan_row [] l = [(k, b)]
        \<and> (\<forall>x\<in>set xs. \<forall>b'. scan_row [] x \<noteq> [(k, b')])"
  then have e: "split_lines out = xs @ l # ys" and r: "scan_row [] l = [(k, b)]"
    and n: "\<forall>x\<in>set xs. \<forall>b'. scan_row [] x \<noteq> [(k, b')]"
    by simp_all
  from first_row_wins [OF r n, of ys] show "map_of (parse_netstat out) k = Some b"
    unfolding parse_netstat_def e .
qed

text \<open>
  C9 has every UDP row that the utility prints as bound contribute an entry with the
  label UDP, and the comment above \<^verbatim>\<open>getSystemPorts\<close> says the same (UDP: always
  bound, no state column). Both patterns ask for a state column between the foreign
  address and the pid. A UDP row as \<^verbatim>\<open>netstat -ano\<close> prints it has four columns, so
  it matches neither pattern and its port is missing from the map: of the table below
  the two listening TCP rows are parsed and the two UDP rows of port 123 are dropped.
\<close>

theorem udp_rows_dropped:
  "parse_netstat
     ([CHR 0x0D, CHR 0x0A] @ ''Active Connections'' @ [CHR 0x0D, CHR 0x0A]
      @ [CHR 0x0D, CHR 0x0A]
      @ ''  Proto  Local Address      Foreign Address    State        PID''
      @ [CHR 0x0D, CHR 0x0A]
      @ ''  TCP    0.0.0.0:135        0.0.0.0:0          LISTENING    1234''
      @ [CHR 0x0D, CHR 0x0A]
      @ ''  TCP    [::1]:5432         [::]:0             LISTENING    4321''
      @ [CHR 0x0D, CHR 0x0A]
      @ ''  UDP    0.0.0.0:123        *:*                             5678''
      @ [CHR 0x0D, CHR 0x0A]
      @ ''  UDP    [::]:123           *:*                             5678''
      @ [CHR 0x0D, CHR 0x0A])
     = [(135, \<lparr> pid = 1234, proto = ''TCP'', state = ''LISTENING'' \<rparr>),
        (5432, \<lparr> pid = 4321, proto = ''TCP'', state = ''LISTENING'' \<rparr>)]
   \<and> match_line ''  UDP    0.0.0.0:123        *:*                             5678'' = None
   \<and> match_line ''  UDP    [::]:123           *:*                             5678'' = None"
  by code_simp

end
